theory Spec2Isabelle
  imports Complex_Main "HOL-Library.RBT"
begin

section \<open>Scalars and vectors\<close>

text \<open>
  Every query of the library is a template over the scalar type \<open>T\<close> (\<open>Real\<close> in the
  older headers). The embedding instantiates it with the real numbers, so \<open>+\<close>, \<open>-\<close>,
  \<open>*\<close>, the comparisons, \<open>std::fabs\<close>, \<open>std::max\<close> and \<open>std::sqrt\<close> are the exact
  operations \<open>+\<close>, \<open>-\<close>, \<open>*\<close>, \<open>\<le>\<close>, \<open>abs\<close>, \<open>max\<close> and \<open>sqrt\<close>; the rounding of
  \<open>float\<close> and \<open>double\<close> is not part of the model.

  \<open>Vector3<T>\<close> is a fixed array of three scalars, modelled as a triple.
  \<open>Vector<N, T>\<close> for a template parameter \<open>N\<close> is a list of scalars that is
  well-formed when its length is \<open>N\<close>.
\<close>

type_synonym Vector3 = "real \<times> real \<times> real"

text \<open>
  Modelled from the spec: the vector header is not among the sources. The spec lists a
  fixed-size vector type with component access, dot product, subtraction and addition.
\<close>

fun Dot3 :: "Vector3 \<Rightarrow> Vector3 \<Rightarrow> real" where
  "Dot3 (a0, a1, a2) (b0, b1, b2) = a0 * b0 + a1 * b1 + a2 * b2"

fun sub3 :: "Vector3 \<Rightarrow> Vector3 \<Rightarrow> Vector3" where
  "sub3 (a0, a1, a2) (b0, b1, b2) = (a0 - b0, a1 - b1, a2 - b2)"

fun add3 :: "Vector3 \<Rightarrow> Vector3 \<Rightarrow> Vector3" where
  "add3 (a0, a1, a2) (b0, b1, b2) = (a0 + b0, a1 + b1, a2 + b2)"

section \<open>Halfspace against sphere (IntrHalfspace3Sphere3.h)\<close>

text \<open>
  \<open>Halfspace3<T>\<close> holds a normal and a constant; \<open>Sphere3<T>\<close> a center and a radius.
  Both headers are outside the sources; the fields are the ones the query reads. Field
  names carry the initial of their class, since several classes share \<open>normal\<close>,
  \<open>constant\<close>, \<open>center\<close> and \<open>extent\<close>.
\<close>

record Halfspace3 =
  h_normal :: Vector3
  h_constant :: real

record Sphere3 =
  s_center :: Vector3
  s_radius :: real

record TIResult =
  intersect :: bool

definition TIQuery_Halfspace3_Sphere3 :: "Halfspace3 \<Rightarrow> Sphere3 \<Rightarrow> TIResult" where
  "TIQuery_Halfspace3_Sphere3 halfspace sphere =
     (let center = Dot3 (h_normal halfspace) (s_center sphere) - h_constant halfspace
      in \<lparr> intersect = (center + s_radius sphere \<ge> 0) \<rparr>)"

section \<open>Halfspace against oriented box (IntrHalfspace3OrientedBox3.h)\<close>

text \<open>
  \<open>OrientedBox3<T>\<close> holds a center, an array of three axis directions and a vector of
  three extents. \<open>at3\<close> is the component access \<open>[i]\<close> of a three-element array; the
  sources only use the constant indices 0, 1 and 2.
\<close>

fun at3 :: "'a \<times> 'a \<times> 'a \<Rightarrow> nat \<Rightarrow> 'a" where
  "at3 (a0, a1, a2) i = (if i = 0 then a0 else if i = 1 then a1 else a2)"

record OrientedBox3 =
  b_center :: Vector3
  b_axis :: "Vector3 \<times> Vector3 \<times> Vector3"
  b_extent :: Vector3

definition TIQuery_Halfspace3_OrientedBox3 :: "Halfspace3 \<Rightarrow> OrientedBox3 \<Rightarrow> TIResult" where
  "TIQuery_Halfspace3_OrientedBox3 halfspace box =
     (let center = Dot3 (h_normal halfspace) (b_center box) - h_constant halfspace;
          radius =
            \<bar>at3 (b_extent box) 0 * Dot3 (h_normal halfspace) (at3 (b_axis box) 0)\<bar> +
            \<bar>at3 (b_extent box) 1 * Dot3 (h_normal halfspace) (at3 (b_axis box) 1)\<bar> +
            \<bar>at3 (b_extent box) 2 * Dot3 (h_normal halfspace) (at3 (b_axis box) 2)\<bar>
      in \<lparr> intersect = (center + radius \<ge> 0) \<rparr>)"

section \<open>Point against plane\<close>

text \<open>
  Modelled from the spec: DistPointHyperplane.h, the query
  \<open>DCPQuery<Real, Vector3<Real>, Plane3<Real>>\<close> that the plane tests call, is not among
  the sources. A plane is a unit normal and a scalar offset; the signed distance of a
  point is \<open>dot(normal, point) - offset\<close>, positive on the side the normal points
  toward, and the distance is its absolute value.
\<close>

record Plane3 =
  p_normal :: Vector3
  p_constant :: real

record VPResult =
  vp_distance :: real
  vp_signedDistance :: real

definition DCPQuery_Vector3_Plane3 :: "Vector3 \<Rightarrow> Plane3 \<Rightarrow> VPResult" where
  "DCPQuery_Vector3_Plane3 point plane =
     (let sd = Dot3 (p_normal plane) point - p_constant plane
      in \<lparr> vp_distance = \<bar>sd\<bar>, vp_signedDistance = sd \<rparr>)"

section \<open>Plane against ellipsoid\<close>

text \<open>
  Modelled from the spec: the matrix header is not among the sources; the spec lists a
  fixed-size square matrix type with a matrix-vector product. \<open>Matrix3x3\<close> is written
  as its three rows.
\<close>

type_synonym Matrix3x3 = "Vector3 \<times> Vector3 \<times> Vector3"

fun mulMV3 :: "Matrix3x3 \<Rightarrow> Vector3 \<Rightarrow> Vector3" where
  "mulMV3 (r0, r1, r2) x = (Dot3 r0 x, Dot3 r1 x, Dot3 r2 x)"

text \<open>
  The ellipsoid class (Hyperellipsoid.h) is outside the sources. The query reads the
  center and calls \<open>GetMInverse\<close>, which writes the inverse of the shape matrix; that
  member function is a parameter of the embedded query, and the record carries the center
  and the shape matrix of the spec's data model.
\<close>

record Ellipsoid3 =
  e_center :: Vector3
  e_M :: Matrix3x3

definition PE_discr :: "(Ellipsoid3 \<Rightarrow> Matrix3x3) \<Rightarrow> Plane3 \<Rightarrow> Ellipsoid3 \<Rightarrow> real" where
  "PE_discr GetMInverse plane ellipsoid =
     (let MInverse = GetMInverse ellipsoid
      in Dot3 (p_normal plane) (mulMV3 MInverse (p_normal plane)))"

text \<open>The argument handed to \<open>std::sqrt\<close>.\<close>

definition PE_sqrt_argument :: "(Ellipsoid3 \<Rightarrow> Matrix3x3) \<Rightarrow> Plane3 \<Rightarrow> Ellipsoid3 \<Rightarrow> real" where
  "PE_sqrt_argument GetMInverse plane ellipsoid =
     max (PE_discr GetMInverse plane ellipsoid) 0"

definition TIQuery_Plane3_Ellipsoid3 ::
  "(Ellipsoid3 \<Rightarrow> Matrix3x3) \<Rightarrow> Plane3 \<Rightarrow> Ellipsoid3 \<Rightarrow> TIResult" where
  "TIQuery_Plane3_Ellipsoid3 GetMInverse plane ellipsoid =
     (let root = sqrt (PE_sqrt_argument GetMInverse plane ellipsoid);
          distance = vp_distance (DCPQuery_Vector3_Plane3 (e_center ellipsoid) plane)
      in \<lparr> intersect = (distance \<le> root) \<rparr>)"

section \<open>Plane against capsule\<close>

record Segment3 =
  p :: "Vector3 \<times> Vector3"

record Capsule3 =
  c_segment :: Segment3
  c_radius :: real

definition TIQuery_Plane3_Capsule3 :: "Plane3 \<Rightarrow> Capsule3 \<Rightarrow> TIResult" where
  "TIQuery_Plane3_Capsule3 plane capsule =
     (let sdistance0 = vp_signedDistance (DCPQuery_Vector3_Plane3 (fst (p (c_segment capsule))) plane);
          sdistance1 = vp_signedDistance (DCPQuery_Vector3_Plane3 (snd (p (c_segment capsule))) plane)
      in if sdistance0 * sdistance1 \<le> 0
         then \<lparr> intersect = True \<rparr>
         else \<lparr> intersect = (\<bar>sdistance0\<bar> \<le> c_radius capsule \<or> \<bar>sdistance1\<bar> \<le> c_radius capsule) \<rparr>)"

section \<open>Vectors of dimension N\<close>

text \<open>
  Modelled from the spec: the operations of \<open>Vector<N, T>\<close> (dot product, subtraction)
  are not among the sources.
\<close>

type_synonym VectorN = "real list"

definition Dot :: "VectorN \<Rightarrow> VectorN \<Rightarrow> real" where
  "Dot u w = sum_list (map2 (*) u w)"

definition subN :: "VectorN \<Rightarrow> VectorN \<Rightarrow> VectorN" where
  "subN u w = map2 (-) u w"

section \<open>Point in cone\<close>

text \<open>
  Modelled from the spec: Cone.h is not among the sources. A cone is a ray (apex and
  direction), the squared cosine of its half-angle and ordered height bounds;
  \<open>HeightInRange\<close> says that a height falls within the bounds.
\<close>

record Ray =
  origin :: VectorN
  direction :: VectorN

record Cone =
  ray :: Ray
  cosAngleSqr :: real
  minHeight :: real
  maxHeight :: real

definition HeightInRange :: "Cone \<Rightarrow> real \<Rightarrow> bool" where
  "HeightInRange cone h = (minHeight cone \<le> h \<and> h \<le> maxHeight cone)"

definition InContainer :: "VectorN \<Rightarrow> Cone \<Rightarrow> bool" where
  "InContainer point cone =
     (let diff = subN point (origin (ray cone));
          h = Dot (direction (ray cone)) diff
      in HeightInRange cone h \<and> h * h \<ge> cosAngleSqr cone * Dot diff diff)"

section \<open>Point against canonical box (DistPointCanonicalBox.h)\<close>

text \<open>
  The canonical box has its center at the origin and is aligned with the coordinate
  axes; it is described by its extents. The result holds the distance, its square and the
  pair of closest points: the input point in \<open>closest[0]\<close>, the box point in
  \<open>closest[1]\<close>.
\<close>

record CanonicalBox =
  extent :: VectorN

record DCPResult =
  distance :: real
  sqrDistance :: real
  closest :: "VectorN \<times> VectorN"

text \<open>The body of the loop over the axes, for the index \<open>i\<close>.\<close>

definition axis_step :: "VectorN \<Rightarrow> CanonicalBox \<Rightarrow> nat \<Rightarrow> DCPResult \<Rightarrow> DCPResult" where
  "axis_step point box i result =
     (if point ! i < - (extent box ! i) then
        (let delta = snd (closest result) ! i + extent box ! i
         in result\<lparr> sqrDistance := sqrDistance result + delta * delta,
                    closest := (fst (closest result), (snd (closest result))[i := - (extent box ! i)]) \<rparr>)
      else if point ! i > extent box ! i then
        (let delta = snd (closest result) ! i - extent box ! i
         in result\<lparr> sqrDistance := sqrDistance result + delta * delta,
                    closest := (fst (closest result), (snd (closest result))[i := extent box ! i]) \<rparr>)
      else result)"

text \<open>
  The query for the template parameter \<open>N\<close>. The point and the extents are arrays of
  \<open>N\<close> scalars in the source, so every read \<open>[i]\<close> with \<open>i < N\<close> is in range; the
  properties below assume lists of that length.
\<close>

definition DCPQuery_Vector_CanonicalBox :: "nat \<Rightarrow> VectorN \<Rightarrow> CanonicalBox \<Rightarrow> DCPResult" where
  "DCPQuery_Vector_CanonicalBox N point box =
     (let result = \<lparr> distance = 0, sqrDistance = 0, closest = (replicate N 0, replicate N 0) \<rparr>;
          result = result\<lparr> closest := (point, snd (closest result)) \<rparr>;
          result = result\<lparr> closest := (fst (closest result), point) \<rparr>;
          result = result\<lparr> sqrDistance := 0 \<rparr>;
          result = fold (axis_step point box) [0..<N] result
      in result\<lparr> distance := sqrt (sqrDistance result) \<rparr>)"

section \<open>Triangle against aligned box (distance)\<close>

text \<open>
  The aligned-box query forwards to the query for a triangle and a canonical box
  (DistTriangle3CanonicalBox3.h) after a translation. That query and
  \<open>AlignedBox3::GetCenteredForm\<close>, which writes the center and the extents of the box,
  are outside the sources; both are parameters of the embedded query. The result type is
  the one of the canonical query: the fields the wrapper touches are named, and the record
  is extensible so that any further field (the barycentric coordinates) is carried along
  unchanged.
\<close>

record Triangle3 =
  v :: "Vector3 \<times> Vector3 \<times> Vector3"

record AlignedBox3 =
  a_min :: Vector3
  a_max :: Vector3

record CanonicalBox3 =
  cb_extent :: Vector3

record TBResult =
  tb_distance :: real
  tb_sqrDistance :: real
  tb_closest :: "Vector3 \<times> Vector3"

definition DCPQuery_Triangle3_AlignedBox3 ::
  "(AlignedBox3 \<Rightarrow> Vector3 \<times> Vector3) \<Rightarrow> (Triangle3 \<Rightarrow> CanonicalBox3 \<Rightarrow> 'r TBResult_scheme)
     \<Rightarrow> Triangle3 \<Rightarrow> AlignedBox3 \<Rightarrow> 'r TBResult_scheme" where
  "DCPQuery_Triangle3_AlignedBox3 GetCenteredForm tbQuery triangle box =
     (let (boxCenter, cbox_extent) = GetCenteredForm box;
          cbox = \<lparr> cb_extent = cbox_extent \<rparr>;
          xfrmTriangle = \<lparr> v = (sub3 (at3 (v triangle) 0) boxCenter,
                                 sub3 (at3 (v triangle) 1) boxCenter,
                                 sub3 (at3 (v triangle) 2) boxCenter) \<rparr>;
          result = tbQuery xfrmTriangle cbox;
          result = result\<lparr> tb_closest := (add3 (fst (tb_closest result)) boxCenter,
                                            snd (tb_closest result)) \<rparr>;
          result = result\<lparr> tb_closest := (fst (tb_closest result),
                                            add3 (snd (tb_closest result)) boxCenter) \<rparr>
      in result)"

text \<open>
  The canonical-frame reduction as the spec words it, for comparison with the source: a
  transform into the frame of the box, the frame-agnostic query, and the transform of
  its result back.
\<close>

definition toCanonical :: "Triangle3 \<Rightarrow> Vector3 \<Rightarrow> Triangle3" where
  "toCanonical triangle c =
     (case v triangle of (v0, v1, v2) \<Rightarrow> \<lparr> v = (sub3 v0 c, sub3 v1 c, sub3 v2 c) \<rparr>)"

definition fromCanonical :: "'r TBResult_scheme \<Rightarrow> Vector3 \<Rightarrow> 'r TBResult_scheme" where
  "fromCanonical r c =
     (case tb_closest r of (c0, c1) \<Rightarrow> r\<lparr> tb_closest := (add3 c0 c, add3 c1 c) \<rparr>)"

definition canonical_frame_reduction ::
  "(AlignedBox3 \<Rightarrow> Vector3 \<times> Vector3) \<Rightarrow> (Triangle3 \<Rightarrow> CanonicalBox3 \<Rightarrow> 'r TBResult_scheme)
     \<Rightarrow> Triangle3 \<Rightarrow> AlignedBox3 \<Rightarrow> 'r TBResult_scheme" where
  "canonical_frame_reduction GetCenteredForm tbQuery triangle box =
     fromCanonical
       (tbQuery (toCanonical triangle (fst (GetCenteredForm box)))
                \<lparr> cb_extent = snd (GetCenteredForm box) \<rparr>)
       (fst (GetCenteredForm box))"

section \<open>Unique vertices of triangles (UniqueVerticesTriangles)\<close>

text \<open>
  The vertex type needs a less-than comparison; here it is any linear order, so two
  vertices are equivalent under the order exactly when they are equal.
  \<open>std::map<VertexType, int32_t>\<close> is a red-black tree keyed by the vertices.

  Sizes and loop counters are \<open>size_t\<close> values, modelled as natural numbers (a vector
  never has \<open>2\<^sup>6\<^sup>4\<close> elements). The indices are \<open>int32_t\<close>:
  \<open>static_cast<int32_t>\<close> of a size keeps its low 32 bits, read in two's complement, and
  an \<open>int32_t\<close> used as the subscript of a vector is converted to the 64-bit \<open>size_t\<close>.
\<close>

definition to_int32 :: "nat \<Rightarrow> int" where
  "to_int32 n = (int n + 2 ^ 31) mod 2 ^ 32 - 2 ^ 31"

definition to_size_t :: "int \<Rightarrow> nat" where
  "to_size_t k = nat (k mod 2 ^ 64)"

text \<open>
  \<open>LogAssert\<close> (Logger.h, outside the sources) guards the precondition on the number
  of vertices; the model ends the call with an error when it fails. A write through
  \<open>operator[]\<close> past the end of a vector is undefined behaviour in the source; the model
  stops there with an error of its own.
\<close>

datatype uvt_error = InvalidNumberOfVertices | OutOfRangeWrite

text \<open>
  \<open>std::vector::resize\<close>: the first \<open>n\<close> elements are kept, missing ones are
  value-initialised.
\<close>

definition resize :: "nat \<Rightarrow> 'a \<Rightarrow> 'a list \<Rightarrow> 'a list" where
  "resize n dflt xs = take n xs @ replicate (n - length xs) dflt"

text \<open>
  The body of the first loop of \<open>RemoveDuplicates\<close> at index \<open>i\<close>, on the state
  \<open>(numOutVertices, vmap, inToOutMapping)\<close>. The pointer \<open>inToOutMapping\<close> advances with
  \<open>i\<close>, so \<open>*inToOutMapping\<close> is the element \<open>i\<close> of the array it was given. The
  insertion happens only after \<open>find\<close> has failed, so it always adds the key.
\<close>

definition RemoveDuplicates_step ::
  "'a::linorder list \<Rightarrow> nat \<Rightarrow> nat \<times> ('a, int) rbt \<times> int list \<Rightarrow> nat \<times> ('a, int) rbt \<times> int list" where
  "RemoveDuplicates_step inVertices i st =
     (case st of (numOutVertices, vmap, inToOutMapping) \<Rightarrow>
        (case RBT.lookup vmap (inVertices ! i) of
           Some second \<Rightarrow> (numOutVertices, vmap, inToOutMapping[i := second])
         | None \<Rightarrow>
             (numOutVertices + 1,
              RBT.insert (inVertices ! i) (to_int32 numOutVertices) vmap,
              inToOutMapping[i := to_int32 numOutVertices])))"

text \<open>
  The second loop packs the unique vertices into the array: one write
  \<open>outVertices[element.second] = element.first\<close> per element of the map, in key order.
\<close>

fun pack :: "('a \<times> int) list \<Rightarrow> 'a list \<Rightarrow> uvt_error + 'a list" where
  "pack [] outVertices = Inr outVertices"
| "pack ((first, second) # elements) outVertices =
     (if to_size_t second < length outVertices
      then pack elements (outVertices[to_size_t second := first])
      else Inl OutOfRangeWrite)"

text \<open>
  \<open>outVertices\<close> and the array behind \<open>inToOutMapping\<close> are output parameters; the model
  takes their contents at the call and returns their contents at the return. \<open>dflt\<close> is
  the value-initialised \<open>VertexType\<close>.
\<close>

definition RemoveDuplicates ::
  "'a::linorder \<Rightarrow> 'a list \<Rightarrow> 'a list \<Rightarrow> int list \<Rightarrow> uvt_error + ('a list \<times> int list)" where
  "RemoveDuplicates dflt inVertices outVertices inToOutMapping =
     (let numInVertices = length inVertices
      in case fold (RemoveDuplicates_step inVertices) [0..<numInVertices]
                (0, RBT.empty, inToOutMapping) of
           (numOutVertices, vmap, inToOutMapping') \<Rightarrow>
             (case pack (RBT.entries vmap) (resize numOutVertices dflt outVertices) of
                Inl e \<Rightarrow> Inl e
              | Inr outVertices' \<Rightarrow> Inr (outVertices', inToOutMapping')))"

definition GenerateIndexedTriangles ::
  "'a::linorder \<Rightarrow> 'a list \<Rightarrow> 'a list \<Rightarrow> int list \<Rightarrow> uvt_error + ('a list \<times> int list)" where
  "GenerateIndexedTriangles dflt inVertices outVertices outIndices =
     (if \<not> (length inVertices > 0 \<and> length inVertices mod 3 = 0)
      then Inl InvalidNumberOfVertices
      else RemoveDuplicates dflt inVertices outVertices
             (resize (length inVertices) 0 outIndices))"

text \<open>
  For the statements: the vertices of a list in the order of their first occurrence, and
  the position of the first occurrence of a vertex in a list.
\<close>

definition first_occurrences :: "'a list \<Rightarrow> 'a list" where
  "first_occurrences xs = rev (remdups (rev xs))"

definition first_index :: "'a list \<Rightarrow> 'a \<Rightarrow> nat" where
  "first_index xs x = length (takeWhile (\<lambda>y. y \<noteq> x) xs)"

text \<open>
  The invariant of the first loop after \<open>k\<close> rounds: the map sends every vertex seen so
  far to the (cast) position of its first occurrence among the vertices seen, and the
  first \<open>k\<close> entries of the mapping agree with the map.
\<close>

definition seen_index :: "'a list \<Rightarrow> 'a \<Rightarrow> int option" where
  "seen_index ys x =
     (if x \<in> set ys then Some (to_int32 (first_index (first_occurrences ys) x)) else None)"

definition RemoveDuplicates_inv ::
  "'a::linorder list \<Rightarrow> nat \<Rightarrow> nat \<times> ('a, int) rbt \<times> int list \<Rightarrow> bool" where
  "RemoveDuplicates_inv xs k st =
     (case st of (numOutVertices, vmap, inToOutMapping) \<Rightarrow>
        numOutVertices = length (first_occurrences (take k xs))
        \<and> RBT.lookup vmap = seen_index (take k xs)
        \<and> length inToOutMapping = length xs
        \<and> (\<forall>i<k. Some (inToOutMapping ! i) = seen_index (take k xs) (xs ! i)))"

section \<open>Properties\<close>

subsection \<open>Halfspace tests\<close>


text \<open>
  C2. For every halfspace and sphere the test query reports an intersection exactly when
  \<open>dot(normal, center) - offset + radius \<ge> 0\<close>. For the halfspace with normal
  \<open>(1,0,0)\<close> and offset \<open>0\<close> and the sphere with center \<open>(-5,0,0)\<close> and radius \<open>2\<close> it
  reports no intersection. Unit length of the normal and the sign of the radius are not
  needed for the equivalence.
\<close>

theorem halfspace_sphere_intersect_iff:
  "(intersect (TIQuery_Halfspace3_Sphere3 halfspace sphere) =
      (Dot3 (h_normal halfspace) (s_center sphere) - h_constant halfspace + s_radius sphere \<ge> 0))
   \<and> intersect (TIQuery_Halfspace3_Sphere3
        \<lparr> h_normal = (1, 0, 0), h_constant = 0 \<rparr>
        \<lparr> s_center = (-5, 0, 0), s_radius = 2 \<rparr>) = False"
  by (simp add: TIQuery_Halfspace3_Sphere3_def)

text \<open>
  C3. For every halfspace and oriented box the test query reports an intersection exactly
  when \<open>(dot(normal, center) - offset) + r \<ge> 0\<close>, where \<open>r\<close> is the sum over the three
  box axes of \<open>|extent[i] * dot(normal, axis[i])|\<close>. Orthonormal axes and non-negative
  extents are not needed for the equivalence.
\<close>

theorem halfspace_obox_intersect_iff:
  "intersect (TIQuery_Halfspace3_OrientedBox3 halfspace box) =
     ((Dot3 (h_normal halfspace) (b_center box) - h_constant halfspace)
        + (\<Sum>i<3. \<bar>at3 (b_extent box) i * Dot3 (h_normal halfspace) (at3 (b_axis box) i)\<bar>)
      \<ge> 0)"
proof -
  have three: "{..<3::nat} = {0, 1, 2}"
    by auto
  show ?thesis
    by (simp add: TIQuery_Halfspace3_OrientedBox3_def Let_def three add.assoc)
qed

subsection \<open>Plane tests\<close>

text \<open>
  C4. For every plane and capsule the test query reports an intersection if the product
  of the signed distances of the two segment endpoints is at most zero, and otherwise
  exactly when the absolute signed distance of one endpoint is at most the radius. For
  the plane with normal \<open>(0,0,1)\<close> and offset \<open>0\<close> and the capsule with endpoints
  \<open>(0,0,-1)\<close> and \<open>(0,0,1)\<close> and radius \<open>0.1\<close> it reports an intersection.
\<close>

theorem plane_capsule_intersect:
  "(intersect (TIQuery_Plane3_Capsule3 plane capsule) =
      (let sd0 = Dot3 (p_normal plane) (fst (p (c_segment capsule))) - p_constant plane;
           sd1 = Dot3 (p_normal plane) (snd (p (c_segment capsule))) - p_constant plane
       in if sd0 * sd1 \<le> 0 then True
          else \<bar>sd0\<bar> \<le> c_radius capsule \<or> \<bar>sd1\<bar> \<le> c_radius capsule))
   \<and> intersect (TIQuery_Plane3_Capsule3
        \<lparr> p_normal = (0, 0, 1), p_constant = 0 \<rparr>
        \<lparr> c_segment = \<lparr> p = ((0, 0, -1), (0, 0, 1)) \<rparr>, c_radius = 1 / 10 \<rparr>) = True"
  by (simp add: TIQuery_Plane3_Capsule3_def DCPQuery_Vector3_Plane3_def Let_def)

text \<open>
  C6. For every plane and ellipsoid the test query reports an intersection exactly when
  the unsigned distance of the ellipsoid center to the plane is at most
  \<open>sqrt(max(normal\<^sup>t M\<^sup>-\<^sup>1 normal, 0))\<close>, where \<open>M\<^sup>-\<^sup>1\<close> is the matrix \<open>GetMInverse\<close>
  writes; the argument handed to the square root is never negative, whatever that matrix
  is.
\<close>

theorem plane_ellipsoid_intersect_iff:
  "(intersect (TIQuery_Plane3_Ellipsoid3 GetMInverse plane ellipsoid) =
      (\<bar>Dot3 (p_normal plane) (e_center ellipsoid) - p_constant plane\<bar>
         \<le> sqrt (max (Dot3 (p_normal plane)
                          (mulMV3 (GetMInverse ellipsoid) (p_normal plane))) 0)))
   \<and> 0 \<le> PE_sqrt_argument GetMInverse plane ellipsoid"
  by (simp add: TIQuery_Plane3_Ellipsoid3_def PE_sqrt_argument_def PE_discr_def
      DCPQuery_Vector3_Plane3_def Let_def)

text \<open>
  A matrix that is not positive definite makes the quadratic form negative; the root is
  then taken of zero.
\<close>

lemma plane_ellipsoid_negative_form:
  "PE_discr (\<lambda>_. ((-1, 0, 0), (0, -1, 0), (0, 0, -1))) \<lparr> p_normal = (1, 0, 0), p_constant = 0 \<rparr> e = -1
   \<and> PE_sqrt_argument (\<lambda>_. ((-1, 0, 0), (0, -1, 0), (0, 0, -1)))
        \<lparr> p_normal = (1, 0, 0), p_constant = 0 \<rparr> e = 0"
  by (simp add: PE_sqrt_argument_def PE_discr_def)


subsection \<open>Point in cone\<close>

text \<open>The list operations against the componentwise sums.\<close>

lemma Dot_sum_nth:
  "length u = N \<Longrightarrow> length w = N \<Longrightarrow> Dot u w = (\<Sum>i<N. u ! i * w ! i)"
  by (simp add: Dot_def sum_list_sum_nth atLeast0LessThan)

lemma subN_nth:
  "i < length u \<Longrightarrow> i < length w \<Longrightarrow> subN u w ! i = u ! i - w ! i"
  by (simp add: subN_def)

lemma length_subN: "length (subN u w) = min (length u) (length w)"
  by (simp add: subN_def)


text \<open>
  C5. For every dimension \<open>N\<close>, point and cone, \<open>InContainer\<close> holds exactly when the
  projection \<open>h = dot(direction, point - apex)\<close> lies within the height bounds and
  \<open>h\<^sup>2 \<ge> cosAngleSqr * |point - apex|\<^sup>2\<close>. Equality counts as contained: for the cone with
  apex at the origin, axis \<open>(0,0,1)\<close>, \<open>cosAngleSqr = 0.5\<close> and height bounds \<open>[0, 10]\<close>,
  the point \<open>(1,0,1)\<close> is contained.
\<close>

theorem cone_contains_iff:
  "(length point = N \<and> length (origin (ray cone)) = N \<and> length (direction (ray cone)) = N \<longrightarrow>
      InContainer point cone =
        (let h = (\<Sum>i<N. direction (ray cone) ! i * (point ! i - origin (ray cone) ! i))
         in (minHeight cone \<le> h \<and> h \<le> maxHeight cone)
            \<and> h\<^sup>2 \<ge> cosAngleSqr cone * (\<Sum>i<N. (point ! i - origin (ray cone) ! i)\<^sup>2)))
   \<and> InContainer [1, 0, 1]
        \<lparr> ray = \<lparr> origin = [0, 0, 0], direction = [0, 0, 1] \<rparr>,
          cosAngleSqr = 1 / 2, minHeight = 0, maxHeight = 10 \<rparr> = True"
proof (intro conjI impI)
  assume len: "length point = N \<and> length (origin (ray cone)) = N \<and> length (direction (ray cone)) = N"
  let ?diff = "subN point (origin (ray cone))"
  have ld: "length ?diff = N"
    using len by (simp add: length_subN)
  have h: "Dot (direction (ray cone)) ?diff =
      (\<Sum>i<N. direction (ray cone) ! i * (point ! i - origin (ray cone) ! i))"
    using len ld by (simp add: Dot_sum_nth [where N = N] subN_nth)
  have d: "Dot ?diff ?diff = (\<Sum>i<N. (point ! i - origin (ray cone) ! i)\<^sup>2)"
    using len ld by (simp add: Dot_sum_nth [where N = N] subN_nth power2_eq_square)
  show "InContainer point cone =
        (let h = (\<Sum>i<N. direction (ray cone) ! i * (point ! i - origin (ray cone) ! i))
         in (minHeight cone \<le> h \<and> h \<le> maxHeight cone)
            \<and> h\<^sup>2 \<ge> cosAngleSqr cone * (\<Sum>i<N. (point ! i - origin (ray cone) ! i)\<^sup>2))"
    by (simp add: InContainer_def HeightInRange_def Let_def h d power2_eq_square)
next
  show "InContainer [1, 0, 1]
        \<lparr> ray = \<lparr> origin = [0, 0, 0], direction = [0, 0, 1] \<rparr>,
          cosAngleSqr = 1 / 2, minHeight = 0, maxHeight = 10 \<rparr> = True"
    by (simp add: InContainer_def HeightInRange_def Dot_def subN_def)
qed

theorem cone_contains_iff_witness:
  "length [2, 0, 1 :: real] = 3 \<and> length [0, 0, 0 :: real] = 3 \<and> length [0, 0, 1 :: real] = 3
   \<and> InContainer [2, 0, 1]
        \<lparr> ray = \<lparr> origin = [0, 0, 0], direction = [0, 0, 1] \<rparr>,
          cosAngleSqr = 1 / 2, minHeight = 0, maxHeight = 10 \<rparr> = False"
proof -
  have three: "{..<3::nat} = {0, 1, 2}"
    by auto
  show ?thesis
    using cone_contains_iff [of "[2, 0, 1]" 3
        "\<lparr> ray = \<lparr> origin = [0, 0, 0], direction = [0, 0, 1] \<rparr>,
          cosAngleSqr = 1 / 2, minHeight = 0, maxHeight = 10 \<rparr>"]
    by (simp add: three)
qed


subsection \<open>Closed primitives\<close>

text \<open>
  C7. A configuration exactly on the decision boundary is reported as intersecting or
  contained: the halfspace-sphere test when \<open>dot(normal, center) - offset + radius\<close> is
  exactly zero, the cone containment when \<open>h\<^sup>2\<close> equals \<open>cosAngleSqr * |diff|\<^sup>2\<close> with \<open>h\<close>
  in the height range, and the plane-capsule test when the signed distance of an endpoint
  is exactly zero or its absolute value equals the radius. The same holds for the two
  other tests of the sources: the halfspace-box test when the projected center plus the
  projection radius is exactly zero, and the plane-ellipsoid test when the distance of the
  center equals the root.
\<close>

theorem closed_boundary_inclusion:
  "(Dot3 (h_normal halfspace) (s_center sphere) - h_constant halfspace + s_radius sphere = 0
      \<longrightarrow> intersect (TIQuery_Halfspace3_Sphere3 halfspace sphere) = True)
   \<and> ((let diff = subN point (origin (ray cone));
            h = Dot (direction (ray cone)) diff
        in h * h = cosAngleSqr cone * Dot diff diff \<and> HeightInRange cone h)
      \<longrightarrow> InContainer point cone = True)
   \<and> ((let sd0 = Dot3 (p_normal plane) (fst (p (c_segment capsule))) - p_constant plane;
            sd1 = Dot3 (p_normal plane) (snd (p (c_segment capsule))) - p_constant plane
        in sd0 = 0 \<or> sd1 = 0 \<or> \<bar>sd0\<bar> = c_radius capsule \<or> \<bar>sd1\<bar> = c_radius capsule)
      \<longrightarrow> intersect (TIQuery_Plane3_Capsule3 plane capsule) = True)
   \<and> ((Dot3 (h_normal halfspace) (b_center box) - h_constant halfspace)
        + (\<Sum>i<3. \<bar>at3 (b_extent box) i * Dot3 (h_normal halfspace) (at3 (b_axis box) i)\<bar>) = 0
      \<longrightarrow> intersect (TIQuery_Halfspace3_OrientedBox3 halfspace box) = True)
   \<and> (\<bar>Dot3 (p_normal plane) (e_center ellipsoid) - p_constant plane\<bar>
        = sqrt (max (Dot3 (p_normal plane) (mulMV3 (GetMInverse ellipsoid) (p_normal plane))) 0)
      \<longrightarrow> intersect (TIQuery_Plane3_Ellipsoid3 GetMInverse plane ellipsoid) = True)"
proof (intro conjI impI)
  assume "Dot3 (h_normal halfspace) (s_center sphere) - h_constant halfspace + s_radius sphere = 0"
  then show "intersect (TIQuery_Halfspace3_Sphere3 halfspace sphere) = True"
    by (simp add: TIQuery_Halfspace3_Sphere3_def)
next
  assume "let diff = subN point (origin (ray cone));
            h = Dot (direction (ray cone)) diff
        in h * h = cosAngleSqr cone * Dot diff diff \<and> HeightInRange cone h"
  then show "InContainer point cone = True"
    by (simp add: InContainer_def Let_def)
next
  assume "let sd0 = Dot3 (p_normal plane) (fst (p (c_segment capsule))) - p_constant plane;
            sd1 = Dot3 (p_normal plane) (snd (p (c_segment capsule))) - p_constant plane
        in sd0 = 0 \<or> sd1 = 0 \<or> \<bar>sd0\<bar> = c_radius capsule \<or> \<bar>sd1\<bar> = c_radius capsule"
  then show "intersect (TIQuery_Plane3_Capsule3 plane capsule) = True"
    by (auto simp add: TIQuery_Plane3_Capsule3_def DCPQuery_Vector3_Plane3_def Let_def)
next
  have three: "{..<3::nat} = {0, 1, 2}"
    by auto
  assume "(Dot3 (h_normal halfspace) (b_center box) - h_constant halfspace)
        + (\<Sum>i<3. \<bar>at3 (b_extent box) i * Dot3 (h_normal halfspace) (at3 (b_axis box) i)\<bar>) = 0"
  then show "intersect (TIQuery_Halfspace3_OrientedBox3 halfspace box) = True"
    by (simp add: TIQuery_Halfspace3_OrientedBox3_def Let_def three add.assoc)
next
  assume "\<bar>Dot3 (p_normal plane) (e_center ellipsoid) - p_constant plane\<bar>
        = sqrt (max (Dot3 (p_normal plane) (mulMV3 (GetMInverse ellipsoid) (p_normal plane))) 0)"
  then show "intersect (TIQuery_Plane3_Ellipsoid3 GetMInverse plane ellipsoid) = True"
    by (simp add: TIQuery_Plane3_Ellipsoid3_def PE_sqrt_argument_def PE_discr_def
        DCPQuery_Vector3_Plane3_def Let_def)
qed

theorem closed_boundary_inclusion_witness:
  "Dot3 (1, 0, 0) (-2, 0, 0) - 0 + 2 = 0
   \<and> intersect (TIQuery_Halfspace3_Sphere3
        \<lparr> h_normal = (1, 0, 0), h_constant = 0 \<rparr> \<lparr> s_center = (-2, 0, 0), s_radius = 2 \<rparr>) = True
   \<and> Dot [0, 0, 1] (subN [1, 0, 1] [0, 0, 0]) * Dot [0, 0, 1] (subN [1, 0, 1] [0, 0, 0])
       = 1 / 2 * Dot (subN [1, 0, 1] [0, 0, 0]) (subN [1, 0, 1] [0, 0, 0])
   \<and> HeightInRange
        \<lparr> ray = \<lparr> origin = [0, 0, 0], direction = [0, 0, 1] \<rparr>,
          cosAngleSqr = 1 / 2, minHeight = 0, maxHeight = 10 \<rparr>
        (Dot [0, 0, 1] (subN [1, 0, 1] [0, 0, 0]))
   \<and> InContainer [1, 0, 1]
        \<lparr> ray = \<lparr> origin = [0, 0, 0], direction = [0, 0, 1] \<rparr>,
          cosAngleSqr = 1 / 2, minHeight = 0, maxHeight = 10 \<rparr> = True
   \<and> \<bar>Dot3 (1, 0, 0) (1, 0, 0) - 0\<bar> = 1
   \<and> intersect (TIQuery_Plane3_Capsule3
        \<lparr> p_normal = (1, 0, 0), p_constant = 0 \<rparr>
        \<lparr> c_segment = \<lparr> p = ((1, 0, 0), (2, 0, 0)) \<rparr>, c_radius = 1 \<rparr>) = True
   \<and> (Dot3 (1, 0, 0) (-1, 0, 0) - 0) + (\<bar>1 * Dot3 (1, 0, 0) (1, 0, 0)\<bar>
        + \<bar>1 * Dot3 (1, 0, 0) (0, 1, 0)\<bar> + \<bar>1 * Dot3 (1, 0, 0) (0, 0, 1)\<bar>) = 0
   \<and> intersect (TIQuery_Halfspace3_OrientedBox3
        \<lparr> h_normal = (1, 0, 0), h_constant = 0 \<rparr>
        \<lparr> b_center = (-1, 0, 0), b_axis = ((1, 0, 0), (0, 1, 0), (0, 0, 1)),
          b_extent = (1, 1, 1) \<rparr>) = True
   \<and> \<bar>Dot3 (1, 0, 0) (1, 0, 0) - 0\<bar>
        = sqrt (max (Dot3 (1, 0, 0) (mulMV3 ((1, 0, 0), (0, 1, 0), (0, 0, 1)) (1, 0, 0))) 0)
   \<and> intersect (TIQuery_Plane3_Ellipsoid3 (\<lambda>e. ((1, 0, 0), (0, 1, 0), (0, 0, 1)))
        \<lparr> p_normal = (1, 0, 0), p_constant = 0 \<rparr>
        \<lparr> e_center = (1, 0, 0), e_M = ((1, 0, 0), (0, 1, 0), (0, 0, 1)) \<rparr>) = True"
proof -
  have three: "{..<3::nat} = {0, 1, 2}"
    by auto
  show ?thesis
    using closed_boundary_inclusion [of
      "\<lparr> h_normal = (1, 0, 0), h_constant = 0 \<rparr>" "\<lparr> s_center = (-2, 0, 0), s_radius = 2 \<rparr>"
      "[1, 0, 1]"
      "\<lparr> ray = \<lparr> origin = [0, 0, 0], direction = [0, 0, 1] \<rparr>,
          cosAngleSqr = 1 / 2, minHeight = 0, maxHeight = 10 \<rparr>"
      "\<lparr> p_normal = (1, 0, 0), p_constant = 0 \<rparr>"
      "\<lparr> c_segment = \<lparr> p = ((1, 0, 0), (2, 0, 0)) \<rparr>, c_radius = 1 \<rparr>"
      "\<lparr> b_center = (-1, 0, 0), b_axis = ((1, 0, 0), (0, 1, 0), (0, 0, 1)),
          b_extent = (1, 1, 1) \<rparr>"
      "\<lparr> e_center = (1, 0, 0), e_M = ((1, 0, 0), (0, 1, 0), (0, 0, 1)) \<rparr>"
      "\<lambda>e. ((1, 0, 0), (0, 1, 0), (0, 0, 1))"]
    by (simp add: Dot_def subN_def HeightInRange_def three)
qed

subsection \<open>Point against canonical box\<close>

text \<open>
  One pass of the loop body at index \<open>k\<close>, when the first \<open>k\<close> coordinates of
  \<open>closest[1]\<close> have been settled and the rest still equals the point.
\<close>

lemma axis_step_at:
  assumes "length xs = k" "k < length point"
  shows "axis_step point box k \<lparr> distance = d, sqrDistance = s, closest = (point, xs @ drop k point) \<rparr>
         = \<lparr> distance = d,
             sqrDistance = s + (if point ! k < - (extent box ! k) then (point ! k + extent box ! k)\<^sup>2
                                else if point ! k > extent box ! k then (point ! k - extent box ! k)\<^sup>2
                                else 0),
             closest = (point,
               (xs @ [if point ! k < - (extent box ! k) then - (extent box ! k)
                      else if point ! k > extent box ! k then extent box ! k
                      else point ! k]) @ drop (Suc k) point) \<rparr>"
proof -
  have split_k: "drop k point = point ! k # drop (Suc k) point"
    using assms(2) by (simp add: Cons_nth_drop_Suc)
  have nth_k: "(xs @ drop k point) ! k = point ! k"
    using assms by (simp add: nth_append)
  have upd_k: "(xs @ drop k point)[k := c] = (xs @ [c]) @ drop (Suc k) point" for c
    using assms(1) by (simp add: split_k list_update_append)
  have keep_k: "xs @ drop k point = (xs @ [point ! k]) @ drop (Suc k) point"
    by (simp add: split_k)
  show ?thesis
  proof (cases "point ! k < - (extent box ! k)")
    case True
    then show ?thesis
      by (simp add: axis_step_def Let_def nth_k upd_k power2_eq_square del: append_assoc)
  next
    case False
    show ?thesis
    proof (cases "point ! k > extent box ! k")
      case True
      with False show ?thesis
        by (simp add: axis_step_def Let_def nth_k upd_k power2_eq_square del: append_assoc)
    next
      case False
      with \<open>\<not> point ! k < - (extent box ! k)\<close> show ?thesis
        using keep_k by (simp add: axis_step_def del: append_assoc)
    qed
  qed
qed

lemma axis_loop_invariant:
  assumes "length point = N" "k \<le> N"
  shows "fold (axis_step point box) [0..<k]
           \<lparr> distance = d, sqrDistance = 0, closest = (point, point) \<rparr>
         = \<lparr> distance = d,
             sqrDistance = (\<Sum>i<k. if point ! i < - (extent box ! i) then (point ! i + extent box ! i)\<^sup>2
                                   else if point ! i > extent box ! i then (point ! i - extent box ! i)\<^sup>2
                                   else 0),
             closest = (point,
               map (\<lambda>i. if point ! i < - (extent box ! i) then - (extent box ! i)
                        else if point ! i > extent box ! i then extent box ! i
                        else point ! i) [0..<k] @ drop k point) \<rparr>"
  using assms(2)
proof (induction k)
  case 0
  show ?case by simp
next
  case (Suc k)
  then have k: "k < length point" "k \<le> N"
    using assms(1) by simp_all
  let ?g = "\<lambda>i. if point ! i < - (extent box ! i) then - (extent box ! i)
                else if point ! i > extent box ! i then extent box ! i
                else point ! i"
  have len: "length (map ?g [0..<k]) = k"
    by simp
  have "fold (axis_step point box) [0..<Suc k]
          \<lparr> distance = d, sqrDistance = 0, closest = (point, point) \<rparr>
        = axis_step point box k
            (fold (axis_step point box) [0..<k]
               \<lparr> distance = d, sqrDistance = 0, closest = (point, point) \<rparr>)"
    by simp
  also note Suc.IH [OF k(2)]
  also note axis_step_at [OF len k(1)]
  finally show ?case
    by simp
qed

lemma DCPQuery_Vector_CanonicalBox_result:
  assumes "length point = N"
  shows "DCPQuery_Vector_CanonicalBox N point box
         = (let s = (\<Sum>i<N. if point ! i < - (extent box ! i) then (point ! i + extent box ! i)\<^sup>2
                             else if point ! i > extent box ! i then (point ! i - extent box ! i)\<^sup>2
                             else 0)
            in \<lparr> distance = sqrt s, sqrDistance = s,
                 closest = (point,
                   map (\<lambda>i. if point ! i < - (extent box ! i) then - (extent box ! i)
                            else if point ! i > extent box ! i then extent box ! i
                            else point ! i) [0..<N]) \<rparr>)"
  using assms
  by (simp add: DCPQuery_Vector_CanonicalBox_def Let_def axis_loop_invariant [where N = N])


text \<open>
  C1. For every point and canonical box in dimension \<open>N\<close> the distance query clamps
  each coordinate \<open>P[i]\<close> that lies outside \<open>[-E[i], E[i]]\<close> to the bound it passed, axis
  by axis, adds the square of the clamp delta to \<open>sqrDistance\<close>, returns the clamped
  coordinates as \<open>closest[1]\<close> and \<open>distance = sqrt(sqrDistance)\<close>. For the extents
  \<open>(2,2,2)\<close> and the point \<open>(5,0,0)\<close> the closest box point is \<open>(2,0,0)\<close> and the squared
  distance is \<open>9\<close>.
\<close>

theorem point_canonicalbox_clamp:
  "(length point = N \<and> length (extent box) = N \<longrightarrow>
      (let r = DCPQuery_Vector_CanonicalBox N point box
       in snd (closest r) =
            map (\<lambda>i. if point ! i < - (extent box ! i) then - (extent box ! i)
                     else if point ! i > extent box ! i then extent box ! i
                     else point ! i) [0..<N]
          \<and> sqrDistance r =
            (\<Sum>i<N. if point ! i < - (extent box ! i) then (point ! i + extent box ! i)\<^sup>2
                    else if point ! i > extent box ! i then (point ! i - extent box ! i)\<^sup>2
                    else 0)
          \<and> distance r = sqrt (sqrDistance r)))
   \<and> (let r = DCPQuery_Vector_CanonicalBox 3 [5, 0, 0] \<lparr> extent = [2, 2, 2] \<rparr>
      in snd (closest r) = [2, 0, 0] \<and> sqrDistance r = 9)"
proof (intro conjI impI)
  assume "length point = N \<and> length (extent box) = N"
  then show "let r = DCPQuery_Vector_CanonicalBox N point box
       in snd (closest r) =
            map (\<lambda>i. if point ! i < - (extent box ! i) then - (extent box ! i)
                     else if point ! i > extent box ! i then extent box ! i
                     else point ! i) [0..<N]
          \<and> sqrDistance r =
            (\<Sum>i<N. if point ! i < - (extent box ! i) then (point ! i + extent box ! i)\<^sup>2
                    else if point ! i > extent box ! i then (point ! i - extent box ! i)\<^sup>2
                    else 0)
          \<and> distance r = sqrt (sqrDistance r)"
    by (simp add: DCPQuery_Vector_CanonicalBox_result Let_def)
next
  have three: "{..<3::nat} = {0, 1, 2}" "[0..<3] = [0, 1, 2]"
    by (auto simp add: upt_rec)
  show "let r = DCPQuery_Vector_CanonicalBox 3 [5, 0, 0] \<lparr> extent = [2, 2, 2] \<rparr>
      in snd (closest r) = [2, 0, 0] \<and> sqrDistance r = 9"
    by (simp add: DCPQuery_Vector_CanonicalBox_result Let_def three)
qed

theorem point_canonicalbox_clamp_witness:
  "length [-3, 1 :: real] = 2 \<and> length (extent \<lparr> extent = [1, 2] \<rparr>) = 2
   \<and> snd (closest (DCPQuery_Vector_CanonicalBox 2 [-3, 1] \<lparr> extent = [1, 2] \<rparr>)) = [-1, 1]
   \<and> sqrDistance (DCPQuery_Vector_CanonicalBox 2 [-3, 1] \<lparr> extent = [1, 2] \<rparr>) = 4
   \<and> distance (DCPQuery_Vector_CanonicalBox 2 [-3, 1] \<lparr> extent = [1, 2] \<rparr>) = 2"
proof -
  have two: "{..<2::nat} = {0, 1}" "[0..<2] = [0, 1]"
    by (auto simp add: upt_rec)
  have "sqrt 4 = 2"
    by simp
  then show ?thesis
    using point_canonicalbox_clamp [of "[-3, 1]" 2 "\<lparr> extent = [1, 2] \<rparr>"]
    by (simp add: Let_def two)
qed


text \<open>On one axis the clamped coordinate is at least as near as any coordinate in range.\<close>

lemma clamp_axis_nearest:
  fixes x e y :: real
  assumes "\<bar>y\<bar> \<le> e"
  shows "(x - (if x < - e then - e else if x > e then e else x))\<^sup>2 \<le> (x - y)\<^sup>2"
proof -
  have "\<bar>x - (if x < - e then - e else if x > e then e else x)\<bar> \<le> \<bar>x - y\<bar>"
  proof (cases "x < - e")
    case True
    then show ?thesis using assms by (simp; linarith)
  next
    case False
    then show ?thesis using assms by (cases "x > e"; simp; linarith)
  qed
  then show ?thesis
    by (simp only: abs_le_square_iff)
qed

lemma clamp_axis_delta:
  fixes x e :: real
  shows "(if x < - e then (x + e)\<^sup>2 else if x > e then (x - e)\<^sup>2 else 0)
         = (x - (if x < - e then - e else if x > e then e else x))\<^sup>2"
  by simp


text \<open>
  C10. For every point and every canonical box with non-negative extents, the result has
  the input point in \<open>closest[0]\<close>, a point of the box in \<open>closest[1]\<close>, the squared
  distance between the two in \<open>sqrDistance\<close>, and no point of the box is nearer to the
  input point than \<open>closest[1]\<close>.
\<close>

theorem point_canonicalbox_closest:
  "length point = N \<and> length (extent box) = N \<and> (\<forall>i<N. 0 \<le> extent box ! i) \<longrightarrow>
     (let r = DCPQuery_Vector_CanonicalBox N point box
      in fst (closest r) = point
         \<and> length (snd (closest r)) = N
         \<and> (\<forall>i<N. \<bar>snd (closest r) ! i\<bar> \<le> extent box ! i)
         \<and> sqrDistance r = (\<Sum>i<N. (point ! i - snd (closest r) ! i)\<^sup>2)
         \<and> distance r = sqrt (\<Sum>i<N. (point ! i - snd (closest r) ! i)\<^sup>2)
         \<and> (\<forall>y. length y = N \<and> (\<forall>i<N. \<bar>y ! i\<bar> \<le> extent box ! i) \<longrightarrow>
                sqrDistance r \<le> (\<Sum>i<N. (point ! i - y ! i)\<^sup>2)
                \<and> distance r \<le> sqrt (\<Sum>i<N. (point ! i - y ! i)\<^sup>2)))"
proof (intro impI)
  assume a: "length point = N \<and> length (extent box) = N \<and> (\<forall>i<N. 0 \<le> extent box ! i)"
  let ?c = "\<lambda>i. if point ! i < - (extent box ! i) then - (extent box ! i)
                else if point ! i > extent box ! i then extent box ! i
                else point ! i"
  let ?s = "\<Sum>i<N. if point ! i < - (extent box ! i) then (point ! i + extent box ! i)\<^sup>2
                   else if point ! i > extent box ! i then (point ! i - extent box ! i)\<^sup>2
                   else 0"
  let ?r = "DCPQuery_Vector_CanonicalBox N point box"
  have r: "?r = \<lparr> distance = sqrt ?s, sqrDistance = ?s, closest = (point, map ?c [0..<N]) \<rparr>"
    using a by (simp add: DCPQuery_Vector_CanonicalBox_result Let_def)
  have s: "?s = (\<Sum>i<N. (point ! i - ?c i)\<^sup>2)"
    by (rule sum.cong) (simp_all only: clamp_axis_delta)
  have inside: "\<bar>?c i\<bar> \<le> extent box ! i" if "i < N" for i
    using a that by (auto simp add: abs_if)
  have nearest: "?s \<le> (\<Sum>i<N. (point ! i - y ! i)\<^sup>2)"
    if "\<forall>i<N. \<bar>y ! i\<bar> \<le> extent box ! i" for y
    unfolding s using that by (intro sum_mono clamp_axis_nearest) simp
  have c_nth: "snd (closest ?r) ! i = ?c i" if "i < N" for i
    using that by (simp add: r)
  have c0: "fst (closest ?r) = point"
    by (simp add: r)
  have c1: "length (snd (closest ?r)) = N"
    by (simp add: r)
  have c2: "\<forall>i<N. \<bar>snd (closest ?r) ! i\<bar> \<le> extent box ! i"
  proof (intro allI impI)
    fix i assume "i < N"
    then show "\<bar>snd (closest ?r) ! i\<bar> \<le> extent box ! i"
      using inside [of i] c_nth [of i] by simp
  qed
  have sum_c: "(\<Sum>i<N. (point ! i - snd (closest ?r) ! i)\<^sup>2) = (\<Sum>i<N. (point ! i - ?c i)\<^sup>2)"
    by (rule sum.cong) (simp_all only: c_nth lessThan_iff)
  have c3: "sqrDistance ?r = (\<Sum>i<N. (point ! i - snd (closest ?r) ! i)\<^sup>2)"
    unfolding sum_c s [symmetric] by (simp add: r)
  have c4: "distance ?r = sqrt (\<Sum>i<N. (point ! i - snd (closest ?r) ! i)\<^sup>2)"
    unfolding sum_c s [symmetric] by (simp add: r)
  have c5: "sqrDistance ?r \<le> (\<Sum>i<N. (point ! i - y ! i)\<^sup>2)"
    if "\<forall>i<N. \<bar>y ! i\<bar> \<le> extent box ! i" for y
    using nearest [OF that] by (simp add: r)
  have c6: "distance ?r \<le> sqrt (\<Sum>i<N. (point ! i - y ! i)\<^sup>2)"
    if "\<forall>i<N. \<bar>y ! i\<bar> \<le> extent box ! i" for y
    using nearest [OF that] by (simp add: r)
  show "let r = ?r
      in fst (closest r) = point
         \<and> length (snd (closest r)) = N
         \<and> (\<forall>i<N. \<bar>snd (closest r) ! i\<bar> \<le> extent box ! i)
         \<and> sqrDistance r = (\<Sum>i<N. (point ! i - snd (closest r) ! i)\<^sup>2)
         \<and> distance r = sqrt (\<Sum>i<N. (point ! i - snd (closest r) ! i)\<^sup>2)
         \<and> (\<forall>y. length y = N \<and> (\<forall>i<N. \<bar>y ! i\<bar> \<le> extent box ! i) \<longrightarrow>
                sqrDistance r \<le> (\<Sum>i<N. (point ! i - y ! i)\<^sup>2)
                \<and> distance r \<le> sqrt (\<Sum>i<N. (point ! i - y ! i)\<^sup>2))"
    unfolding Let_def using c0 c1 c2 c3 c4 c5 c6 by blast
qed

theorem point_canonicalbox_closest_witness:
  "length [5, 0, 0 :: real] = 3 \<and> length (extent \<lparr> extent = [2, 2, 2] \<rparr>) = 3
   \<and> (0::real) \<le> 2
   \<and> fst (closest (DCPQuery_Vector_CanonicalBox 3 [5, 0, 0] \<lparr> extent = [2, 2, 2] \<rparr>)) = [5, 0, 0]
   \<and> snd (closest (DCPQuery_Vector_CanonicalBox 3 [5, 0, 0] \<lparr> extent = [2, 2, 2] \<rparr>)) = [2, 0, 0]
   \<and> sqrDistance (DCPQuery_Vector_CanonicalBox 3 [5, 0, 0] \<lparr> extent = [2, 2, 2] \<rparr>) = 9
   \<and> length [1, 1, -2 :: real] = 3
   \<and> sqrDistance (DCPQuery_Vector_CanonicalBox 3 [5, 0, 0] \<lparr> extent = [2, 2, 2] \<rparr>)
       \<le> (\<Sum>i<3. ([5, 0, 0] ! i - [1, 1, -2 :: real] ! i)\<^sup>2)"
proof -
  have three: "{..<3::nat} = {0, 1, 2}" "[0..<3] = [0, 1, 2]"
    by (auto simp add: upt_rec)
  have all3: "(\<forall>i<3. P i) = (P 0 \<and> P 1 \<and> P (2::nat))" for P
  proof -
    have "(\<forall>i<3. P i) = (\<forall>i\<in>{..<3::nat}. P i)"
      by auto
    also have "\<dots> = (P 0 \<and> P 1 \<and> P 2)"
      unfolding three by simp
    finally show ?thesis .
  qed
  let ?r = "DCPQuery_Vector_CanonicalBox 3 [5, 0, 0] \<lparr> extent = [2, 2, 2] \<rparr>"
  have r: "snd (closest ?r) = [2, 0, 0]" "sqrDistance ?r = 9"
    by (simp_all add: DCPQuery_Vector_CanonicalBox_result Let_def three)
  have hyp: "length [5, 0, 0 :: real] = 3 \<and> length (extent \<lparr> extent = [2, 2, 2] \<rparr>) = 3
      \<and> (\<forall>i<3. 0 \<le> extent \<lparr> extent = [2, 2, 2] \<rparr> ! i)"
    by (simp add: all3)
  note t = point_canonicalbox_closest [of "[5, 0, 0]" 3 "\<lparr> extent = [2, 2, 2] \<rparr>",
      unfolded Let_def, THEN mp, OF hyp]
  from t have c0: "fst (closest ?r) = [5, 0, 0]"
    by blast
  from t have "length [1, 1, -2 :: real] = 3
      \<and> (\<forall>i<3. \<bar>[1, 1, -2 :: real] ! i\<bar> \<le> extent \<lparr> extent = [2, 2, 2] \<rparr> ! i)
      \<longrightarrow> sqrDistance ?r \<le> (\<Sum>i<3. ([5, 0, 0] ! i - [1, 1, -2 :: real] ! i)\<^sup>2)"
    by blast
  then have near: "sqrDistance ?r \<le> (\<Sum>i<3. ([5, 0, 0] ! i - [1, 1, -2 :: real] ! i)\<^sup>2)"
    by (simp add: all3)
  show ?thesis
    using c0 r near by simp
qed

subsection \<open>Triangle against aligned box\<close>

text \<open>
  C8. The aligned-box distance query is the canonical-frame reduction of the canonical
  query: its distance and squared distance are those the canonical query returns for the
  triangle translated by minus the box center and the centered form of the box, and each
  of its closest points is the canonical one plus the box center.
\<close>

theorem triangle_alignedbox_reduction:
  "DCPQuery_Triangle3_AlignedBox3 GetCenteredForm tbQuery triangle box
     = canonical_frame_reduction GetCenteredForm tbQuery triangle box
   \<and> (let c = fst (GetCenteredForm box);
          r = tbQuery \<lparr> v = (sub3 (at3 (v triangle) 0) c, sub3 (at3 (v triangle) 1) c,
                             sub3 (at3 (v triangle) 2) c) \<rparr>
                      \<lparr> cb_extent = snd (GetCenteredForm box) \<rparr>;
          q = DCPQuery_Triangle3_AlignedBox3 GetCenteredForm tbQuery triangle box
      in tb_distance q = tb_distance r
         \<and> tb_sqrDistance q = tb_sqrDistance r
         \<and> fst (tb_closest q) = add3 (fst (tb_closest r)) c
         \<and> snd (tb_closest q) = add3 (snd (tb_closest r)) c)"
proof -
  obtain c e where ce: "GetCenteredForm box = (c, e)"
    by (cases "GetCenteredForm box")
  obtain v0 v1 v2 where vs: "v triangle = (v0, v1, v2)"
    by (cases "v triangle") auto
  show ?thesis
    by (simp add: DCPQuery_Triangle3_AlignedBox3_def canonical_frame_reduction_def
        toCanonical_def fromCanonical_def ce vs Let_def split: prod.splits)
qed

subsection \<open>Unique vertices of triangles\<close>

text \<open>The two casts, where they are the identity and where they wrap.\<close>

lemma to_int32_small: "n < 2 ^ 31 \<Longrightarrow> to_int32 n = int n"
  by (simp add: to_int32_def)

lemma to_int32_wrap: "to_int32 2147483648 = - 2147483648"
  by (simp add: to_int32_def)

lemma to_size_t_int: "n < 2 ^ 64 \<Longrightarrow> to_size_t (int n) = n"
  by (simp add: to_size_t_def)

lemma to_size_t_wrap: "to_size_t (- 2147483648) = 18446744071562067968"
  by (simp add: to_size_t_def)

lemma length_resize: "length (resize n dflt xs) = n"
  by (simp add: resize_def)

lemma first_occurrences_snoc:
  "first_occurrences (xs @ [x]) =
     (if x \<in> set xs then first_occurrences xs else first_occurrences xs @ [x])"
  by (simp add: first_occurrences_def)

lemma set_first_occurrences: "set (first_occurrences xs) = set xs"
  by (simp add: first_occurrences_def)

lemma distinct_first_occurrences: "distinct (first_occurrences xs)"
  by (simp add: first_occurrences_def)

lemma length_first_occurrences: "length (first_occurrences xs) = card (set xs)"
  by (simp add: first_occurrences_def length_remdups_card_conv)

lemma first_index_less: "x \<in> set xs \<Longrightarrow> first_index xs x < length xs"
  unfolding first_index_def by (induction xs) auto

lemma nth_first_index: "x \<in> set xs \<Longrightarrow> xs ! first_index xs x = x"
  unfolding first_index_def by (induction xs) auto

lemma first_index_append_in: "x \<in> set xs \<Longrightarrow> first_index (xs @ ys) x = first_index xs x"
  unfolding first_index_def by (simp add: takeWhile_append1 [where x = x])

lemma first_index_snoc_new: "x \<notin> set xs \<Longrightarrow> first_index (xs @ [x]) x = length xs"
  unfolding first_index_def by (subst takeWhile_append2) auto

lemma first_index_nth_distinct:
  "distinct xs \<Longrightarrow> j < length xs \<Longrightarrow> first_index xs (xs ! j) = j"
  by (metis distinct_conv_nth first_index_less nth_first_index nth_mem)


text \<open>The invariant of the first loop is kept by its body.\<close>

lemma seen_index_snoc_old:
  "x \<in> set ys \<Longrightarrow> seen_index (ys @ [x]) = seen_index ys"
  by (rule ext) (simp add: seen_index_def first_occurrences_snoc)

lemma seen_index_snoc_new:
  assumes "x \<notin> set ys"
  shows "seen_index (ys @ [x]) = (seen_index ys)(x \<mapsto> to_int32 (length (first_occurrences ys)))"
proof (rule ext)
  fix w
  have notin: "x \<notin> set (first_occurrences ys)"
    using assms by (simp add: set_first_occurrences)
  show "seen_index (ys @ [x]) w
      = ((seen_index ys)(x \<mapsto> to_int32 (length (first_occurrences ys)))) w"
  proof (cases "w = x")
    case True
    then show ?thesis
      using assms notin
      by (simp add: seen_index_def first_occurrences_snoc first_index_snoc_new)
  next
    case False
    then show ?thesis
      using assms
      by (simp add: seen_index_def first_occurrences_snoc first_index_append_in
          set_first_occurrences)
  qed
qed

lemma seen_index_Some_iff: "(\<exists>b. seen_index ys x = Some b) \<longleftrightarrow> x \<in> set ys"
  by (simp add: seen_index_def)

lemma RemoveDuplicates_step_inv:
  assumes k: "k < length xs" and inv: "RemoveDuplicates_inv xs k st"
  shows "RemoveDuplicates_inv xs (Suc k) (RemoveDuplicates_step xs k st)"
proof -
  obtain n vmap m where st: "st = (n, vmap, m)"
    by (cases st) auto
  let ?ys = "take k xs"
  have tk: "take (Suc k) xs = ?ys @ [xs ! k]"
    using k by (simp add: take_Suc_conv_app_nth)
  from inv st have n: "n = length (first_occurrences ?ys)"
    and look: "RBT.lookup vmap = seen_index ?ys"
    and len: "length m = length xs"
    and mp: "\<And>i. i < k \<Longrightarrow> Some (m ! i) = seen_index ?ys (xs ! i)"
    by (simp_all add: RemoveDuplicates_inv_def)
  show ?thesis
  proof (cases "RBT.lookup vmap (xs ! k)")
    case (Some b)
    then have mem: "xs ! k \<in> set ?ys"
      using look seen_index_Some_iff [of ?ys "xs ! k"] by auto
    have step: "RemoveDuplicates_step xs k st = (n, vmap, m[k := b])"
      using Some by (simp add: RemoveDuplicates_step_def st)
    have "Some ((m[k := b]) ! i) = seen_index ?ys (xs ! i)" if "i < Suc k" for i
    proof (cases "i = k")
      case True
      then show ?thesis using Some look k len by simp
    next
      case False
      then show ?thesis using that mp [of i] by simp
    qed
    then show ?thesis
      unfolding step RemoveDuplicates_inv_def tk
      using n look len mem by (simp add: seen_index_snoc_old first_occurrences_snoc)
  next
    case None
    then have nmem: "xs ! k \<notin> set ?ys"
      using look seen_index_Some_iff [of ?ys "xs ! k"] by auto
    have step: "RemoveDuplicates_step xs k st
        = (n + 1, RBT.insert (xs ! k) (to_int32 n) vmap, m[k := to_int32 n])"
      using None by (simp add: RemoveDuplicates_step_def st)
    have "Some ((m[k := to_int32 n]) ! i)
        = ((seen_index ?ys)(xs ! k \<mapsto> to_int32 n)) (xs ! i)" if "i < Suc k" for i
    proof (cases "i = k")
      case True
      then show ?thesis using k len by simp
    next
      case False
      then have ik: "i < k" using that by simp
      then have "xs ! i \<in> set ?ys"
        using k by (auto simp add: in_set_conv_nth intro!: exI [of _ i])
      then have "xs ! i \<noteq> xs ! k"
        using nmem by auto
      then show ?thesis using False mp [OF ik] by simp
    qed
    then show ?thesis
      unfolding step RemoveDuplicates_inv_def tk
      using n look len nmem
      by (simp add: seen_index_snoc_new first_occurrences_snoc)
  qed
qed

lemma RemoveDuplicates_loop_inv:
  assumes "length m0 = length xs" "k \<le> length xs"
  shows "RemoveDuplicates_inv xs k
           (fold (RemoveDuplicates_step xs) [0..<k] (0, RBT.empty, m0))"
  using assms(2)
proof (induction k)
  case 0
  show ?case
    using assms(1)
    by (simp add: RemoveDuplicates_inv_def first_occurrences_def seen_index_def fun_eq_iff)
next
  case (Suc k)
  then have "k < length xs" "k \<le> length xs"
    by simp_all
  then show ?case
    using Suc.IH RemoveDuplicates_step_inv [of k xs] by simp
qed


text \<open>
  The packing loop either writes every element of the map in range, and is then a fold
  of array updates, or meets a subscript past the end.
\<close>

lemma pack_all_in_range:
  "\<forall>e\<in>set es. to_size_t (snd e) < length out \<Longrightarrow>
     pack es out = Inr (fold (\<lambda>e out. out[to_size_t (snd e) := fst e]) es out)"
proof (induction es arbitrary: out)
  case Nil
  show ?case by simp
next
  case (Cons e es)
  obtain a b where e: "e = (a, b)"
    by (cases e)
  have here: "to_size_t b < length out"
    using Cons.prems e by simp
  have "\<forall>e\<in>set es. to_size_t (snd e) < length (out[to_size_t b := a])"
    using Cons.prems by simp
  from Cons.IH [OF this] show ?case
    using here e by simp
qed

lemma pack_some_out_of_range:
  "\<exists>e\<in>set es. \<not> to_size_t (snd e) < length out \<Longrightarrow> pack es out = Inl OutOfRangeWrite"
proof (induction es arbitrary: out)
  case Nil
  then show ?case by simp
next
  case (Cons e es)
  obtain a b where e: "e = (a, b)"
    by (cases e)
  show ?case
  proof (cases "to_size_t b < length out")
    case True
    then have "\<exists>e\<in>set es. \<not> to_size_t (snd e) < length (out[to_size_t b := a])"
      using Cons.prems e by auto
    from Cons.IH [OF this] show ?thesis
      using True e by simp
  next
    case False
    then show ?thesis using e by simp
  qed
qed

lemma length_fold_update:
  "length (fold (\<lambda>e out. out[g e := f e]) es out) = length out"
  by (induction es arbitrary: out) simp_all

lemma fold_update_nth:
  assumes "e \<in> set es" "g e < length out" "\<forall>e'\<in>set es. g e' = g e \<longrightarrow> f e' = f e"
  shows "fold (\<lambda>e out. out[g e := f e]) es out ! g e = f e"
  using assms(1,3)
proof (induction es rule: rev_induct)
  case Nil
  then show ?case by simp
next
  case (snoc e' es)
  let ?r = "fold (\<lambda>e out. out[g e := f e]) es out"
  have unfold: "fold (\<lambda>e out. out[g e := f e]) (es @ [e']) out = ?r[g e' := f e']"
    by simp
  have len: "g e < length ?r"
    using assms(2) by (simp only: length_fold_update)
  show ?case
  proof (cases "g e' = g e")
    case True
    have "e' \<in> set (es @ [e'])"
      by simp
    with snoc.prems(2) True have "f e' = f e"
      by blast
    then show ?thesis
      unfolding unfold using True len by simp
  next
    case False
    then have "e \<noteq> e'"
      by auto
    with snoc.prems(1) have mem: "e \<in> set es"
      by simp
    have "\<forall>e'\<in>set es. g e' = g e \<longrightarrow> f e' = f e"
      using snoc.prems(2) by simp
    from snoc.IH [OF mem this] show ?thesis
      unfolding unfold using False by simp
  qed
qed


text \<open>
  The outcome of \<open>RemoveDuplicates\<close>: with at most \<open>2\<^sup>3\<^sup>1\<close> distinct vertices no cast
  wraps, the pool is the list of first occurrences and every index is the position of its
  vertex in the pool. With more distinct vertices (and fewer than \<open>2\<^sup>6\<^sup>4 - 2\<^sup>3\<^sup>1\<close>) the
  vertex number \<open>2\<^sup>3\<^sup>1\<close> of the pool gets the index \<open>-2\<^sup>3\<^sup>1\<close>, and packing writes
  outside the array.
\<close>

lemma RemoveDuplicates_loop_result:
  assumes "length m0 = length xs"
  obtains vmap m where
    "fold (RemoveDuplicates_step xs) [0..<length xs] (0, RBT.empty, m0)
       = (length (first_occurrences xs), vmap, m)"
    "RBT.lookup vmap = seen_index xs"
    "m = map (\<lambda>x. to_int32 (first_index (first_occurrences xs) x)) xs"
proof -
  obtain n vmap m where f:
    "fold (RemoveDuplicates_step xs) [0..<length xs] (0, RBT.empty, m0) = (n, vmap, m)"
    by (cases "fold (RemoveDuplicates_step xs) [0..<length xs] (0, RBT.empty, m0)") auto
  have inv: "RemoveDuplicates_inv xs (length xs) (n, vmap, m)"
    using RemoveDuplicates_loop_inv [OF assms, of "length xs"] f by simp
  then have n: "n = length (first_occurrences xs)"
    and look: "RBT.lookup vmap = seen_index xs"
    and len: "length m = length xs"
    and mp: "\<And>i. i < length xs \<Longrightarrow> Some (m ! i) = seen_index xs (xs ! i)"
    by (simp_all add: RemoveDuplicates_inv_def)
  have "m = map (\<lambda>x. to_int32 (first_index (first_occurrences xs) x)) xs"
  proof (rule nth_equalityI)
    show "length m = length (map (\<lambda>x. to_int32 (first_index (first_occurrences xs) x)) xs)"
      using len by simp
  next
    fix i assume "i < length m"
    then have i: "i < length xs" using len by simp
    then show "m ! i = map (\<lambda>x. to_int32 (first_index (first_occurrences xs) x)) xs ! i"
      using mp [OF i] by (simp add: seen_index_def)
  qed
  then show thesis
    using that f n look by simp
qed

lemma RemoveDuplicates_bounded:
  assumes len: "length m0 = length xs" and card: "card (set xs) \<le> 2 ^ 31"
  shows "RemoveDuplicates dflt xs ov m0
         = Inr (first_occurrences xs, map (\<lambda>x. int (first_index (first_occurrences xs) x)) xs)"
proof -
  let ?P = "first_occurrences xs"
  let ?D = "length ?P"
  obtain vmap m where f:
    "fold (RemoveDuplicates_step xs) [0..<length xs] (0, RBT.empty, m0) = (?D, vmap, m)"
    and look: "RBT.lookup vmap = seen_index xs"
    and m: "m = map (\<lambda>x. to_int32 (first_index ?P x)) xs"
    using RemoveDuplicates_loop_result [OF len] by blast
  have D: "?D \<le> 2 ^ 31"
    using card by (simp add: length_first_occurrences)
  have small: "to_int32 (first_index ?P x) = int (first_index ?P x)"
    and inrange: "first_index ?P x < ?D" if "x \<in> set xs" for x
  proof -
    show "first_index ?P x < ?D"
      using that by (simp add: first_index_less set_first_occurrences)
    then show "to_int32 (first_index ?P x) = int (first_index ?P x)"
      using D by (intro to_int32_small) simp
  qed
  have m': "m = map (\<lambda>x. int (first_index ?P x)) xs"
    unfolding m by (rule map_cong) (simp_all add: small)
  let ?es = "RBT.entries vmap"
  let ?out = "resize ?D dflt ov"
  have entry: "fst e \<in> set xs \<and> snd e = int (first_index ?P (fst e))" if "e \<in> set ?es" for e
  proof -
    have "RBT.lookup vmap (fst e) = Some (snd e)"
      using that by (simp add: RBT.lookup_in_tree)
    then have s: "seen_index xs (fst e) = Some (snd e)"
      using look by simp
    then have "fst e \<in> set xs"
      using seen_index_Some_iff [of xs "fst e"] by auto
    then show ?thesis
      using s small by (simp add: seen_index_def)
  qed
  have size: "to_size_t (snd e) = first_index ?P (fst e)" if "e \<in> set ?es" for e
  proof -
    have "first_index ?P (fst e) < 2 ^ 64"
      using inrange [of "fst e"] entry [OF that] D by simp
    then show ?thesis
      using entry [OF that] by (simp add: to_size_t_int)
  qed
  have "\<forall>e\<in>set ?es. to_size_t (snd e) < length ?out"
    using size entry inrange by (simp add: length_resize)
  then have pk: "pack ?es ?out = Inr (fold (\<lambda>e out. out[to_size_t (snd e) := fst e]) ?es ?out)"
    by (rule pack_all_in_range)
  have "fold (\<lambda>e out. out[to_size_t (snd e) := fst e]) ?es ?out = ?P"
  proof (rule nth_equalityI)
    show "length (fold (\<lambda>e out. out[to_size_t (snd e) := fst e]) ?es ?out) = ?D"
      by (simp add: length_fold_update length_resize)
  next
    fix j assume "j < length (fold (\<lambda>e out. out[to_size_t (snd e) := fst e]) ?es ?out)"
    then have j: "j < ?D"
      by (simp add: length_fold_update length_resize)
    then have Pj: "?P ! j \<in> set xs"
      using nth_mem [OF j] by (simp add: set_first_occurrences)
    have fj: "first_index ?P (?P ! j) = j"
      using j by (simp add: first_index_nth_distinct distinct_first_occurrences)
    have "RBT.lookup vmap (?P ! j) = Some (int j)"
      using Pj small [OF Pj] by (simp add: look seen_index_def fj)
    then have mem: "(?P ! j, int j) \<in> set ?es"
      by (simp add: RBT.lookup_in_tree)
    have sz: "to_size_t (snd (?P ! j, int j)) = j"
      using size [OF mem] fj by simp
    have uniq: "\<forall>e'\<in>set ?es. to_size_t (snd e') = to_size_t (snd (?P ! j, int j))
        \<longrightarrow> fst e' = fst (?P ! j, int j)"
    proof (intro ballI impI)
      fix e' assume e': "e' \<in> set ?es"
        and eq: "to_size_t (snd e') = to_size_t (snd (?P ! j, int j))"
      then have "first_index ?P (fst e') = j"
        using size [OF e'] sz by simp
      moreover have "fst e' \<in> set ?P"
        using entry [OF e'] by (simp add: set_first_occurrences)
      ultimately show "fst e' = fst (?P ! j, int j)"
        using nth_first_index [of "fst e'" ?P] by simp
    qed
    have "fold (\<lambda>e out. out[to_size_t (snd e) := fst e]) ?es ?out
            ! to_size_t (snd (?P ! j, int j)) = fst (?P ! j, int j)"
      using mem uniq sz j by (intro fold_update_nth) (simp_all add: length_resize)
    then show "fold (\<lambda>e out. out[to_size_t (snd e) := fst e]) ?es ?out ! j = ?P ! j"
      using sz by simp
  qed
  then have "pack ?es ?out = Inr ?P"
    using pk by simp
  then show ?thesis
    by (simp add: RemoveDuplicates_def f m')
qed


lemma RemoveDuplicates_overflow:
  assumes len: "length m0 = length xs"
    and card: "2 ^ 31 < card (set xs)" "card (set xs) \<le> 2 ^ 64 - 2 ^ 31"
  shows "RemoveDuplicates dflt xs ov m0 = Inl OutOfRangeWrite"
proof -
  let ?P = "first_occurrences xs"
  let ?D = "length ?P"
  obtain vmap m where f:
    "fold (RemoveDuplicates_step xs) [0..<length xs] (0, RBT.empty, m0) = (?D, vmap, m)"
    and look: "RBT.lookup vmap = seen_index xs"
    using RemoveDuplicates_loop_result [OF len] by blast
  have D: "2 ^ 31 < ?D" "?D \<le> 2 ^ 64 - 2 ^ 31"
    using card by (simp_all add: length_first_occurrences)
  let ?x = "?P ! (2 ^ 31)"
  have x: "?x \<in> set xs"
    using nth_mem [OF D(1)] by (simp add: set_first_occurrences)
  have "first_index ?P ?x = 2 ^ 31"
    using D(1) by (simp add: first_index_nth_distinct distinct_first_occurrences)
  then have "RBT.lookup vmap ?x = Some (- (2 ^ 31))"
    using x by (simp add: look seen_index_def to_int32_wrap)
  then have "(?x, - (2 ^ 31)) \<in> set (RBT.entries vmap)"
    by (simp add: RBT.lookup_in_tree)
  moreover have "\<not> to_size_t (snd (?x, - (2 ^ 31) :: int)) < length (resize ?D dflt ov)"
    using D(2) by (simp add: length_resize to_size_t_wrap)
  ultimately have "pack (RBT.entries vmap) (resize ?D dflt ov) = Inl OutOfRangeWrite"
    by (intro pack_some_out_of_range) blast
  then show ?thesis
    by (simp add: RemoveDuplicates_def f)
qed

lemma first_occurrences_distinct: "distinct xs \<Longrightarrow> first_occurrences xs = xs"
  by (simp add: first_occurrences_def distinct_remdups_id)

lemma GenerateIndexedTriangles_upt_overflow:
  assumes "2147483648 < n" "n \<le> 18446744071562067968" "n mod 3 = 0"
  shows "GenerateIndexedTriangles (0::nat) [0..<n] ov oi = Inl OutOfRangeWrite"
proof -
  have "RemoveDuplicates (0::nat) [0..<n] ov (resize (length [0..<n]) 0 oi) = Inl OutOfRangeWrite"
    using assms(1,2) by (intro RemoveDuplicates_overflow) (simp_all add: length_resize)
  then show ?thesis
    using assms by (simp add: GenerateIndexedTriangles_def)
qed

lemma RemoveDuplicates_upt_index:
  assumes "2147483648 < n"
  shows "snd (snd (fold (RemoveDuplicates_step [0..<n]) [0..<n]
            (0, RBT.empty, resize n 0 []))) ! 2147483648 = - 2147483648"
proof -
  have len: "length (resize n 0 ([] :: int list)) = length [0..<n]"
    by (simp add: length_resize)
  obtain vmap m where f:
    "fold (RemoveDuplicates_step [0..<n]) [0..<length [0..<n]] (0, RBT.empty, resize n 0 [])
       = (length (first_occurrences [0..<n]), vmap, m)"
    and m: "m = map (\<lambda>x. to_int32 (first_index (first_occurrences [0..<n]) x)) [0..<n]"
    using RemoveDuplicates_loop_result [OF len] by blast
  have P: "first_occurrences [0..<n] = [0..<n]"
    by (simp add: first_occurrences_distinct)
  have "first_index [0..<n] ([0..<n] ! 2147483648) = 2147483648"
    using assms by (intro first_index_nth_distinct) simp_all
  then have "first_index [0..<n] 2147483648 = 2147483648"
    using assms by simp
  then have "m ! 2147483648 = - 2147483648"
    using assms unfolding m P by (simp add: to_int32_wrap)
  then show ?thesis
    using f by simp
qed


text \<open>
  While the index type can number the pool, the contract in the comment above
  \<open>GenerateIndexedTriangles\<close> is met: for a non-empty list of vertices whose length is a
  multiple of 3 and that has at most \<open>2\<^sup>3\<^sup>1\<close> distinct vertices, the index list is as long
  as the input, every index lies in \<open>[0, outVertices.size())\<close>, the pool has no repeated
  vertex, the pool vertex at index \<open>outIndices[i]\<close> is the input vertex \<open>i\<close>, and every
  position gets the index that the first occurrence of its vertex got. The prior contents
  of the two output vectors do not matter.
\<close>

lemma GenerateIndexedTriangles_indexed:
  "0 < length inVertices \<and> length inVertices mod 3 = 0 \<and> card (set inVertices) \<le> 2 ^ 31 \<longrightarrow>
     (\<exists>outVertices' outIndices'.
        GenerateIndexedTriangles dflt inVertices outVertices outIndices
          = Inr (outVertices', outIndices')
        \<and> length outIndices' = length inVertices
        \<and> (\<forall>i<length outIndices'.
              0 \<le> outIndices' ! i \<and> outIndices' ! i < int (length outVertices'))
        \<and> distinct outVertices'
        \<and> (\<forall>i<length inVertices. outVertices' ! nat (outIndices' ! i) = inVertices ! i)
        \<and> (\<forall>i<length inVertices.
              outIndices' ! i = outIndices' ! first_index inVertices (inVertices ! i)))"
proof (intro impI)
  assume a: "0 < length inVertices \<and> length inVertices mod 3 = 0
    \<and> card (set inVertices) \<le> 2 ^ 31"
  let ?P = "first_occurrences inVertices"
  let ?I = "map (\<lambda>x. int (first_index ?P x)) inVertices"
  have "RemoveDuplicates dflt inVertices outVertices (resize (length inVertices) 0 outIndices)
      = Inr (?P, ?I)"
    using a by (intro RemoveDuplicates_bounded) (simp_all add: length_resize)
  then have res: "GenerateIndexedTriangles dflt inVertices outVertices outIndices = Inr (?P, ?I)"
    using a by (simp add: GenerateIndexedTriangles_def)
  have mem: "inVertices ! i \<in> set ?P" if "i < length inVertices" for i
    using that by (simp add: set_first_occurrences)
  have p1: "length ?I = length inVertices"
    by simp
  have p2: "\<forall>i<length ?I. 0 \<le> ?I ! i \<and> ?I ! i < int (length ?P)"
    using mem by (simp add: first_index_less)
  have p3: "distinct ?P"
    by (rule distinct_first_occurrences)
  have p4: "\<forall>i<length inVertices. ?P ! nat (?I ! i) = inVertices ! i"
    using mem by (simp add: nth_first_index)
  have p5: "\<forall>i<length inVertices. ?I ! i = ?I ! first_index inVertices (inVertices ! i)"
  proof (intro allI impI)
    fix i assume i: "i < length inVertices"
    then have "inVertices ! i \<in> set inVertices"
      by simp
    then have "first_index inVertices (inVertices ! i) < length inVertices"
      and "inVertices ! first_index inVertices (inVertices ! i) = inVertices ! i"
      by (simp_all add: first_index_less nth_first_index)
    then show "?I ! i = ?I ! first_index inVertices (inVertices ! i)"
      using i by simp
  qed
  show "\<exists>outVertices' outIndices'.
        GenerateIndexedTriangles dflt inVertices outVertices outIndices
          = Inr (outVertices', outIndices')
        \<and> length outIndices' = length inVertices
        \<and> (\<forall>i<length outIndices'.
              0 \<le> outIndices' ! i \<and> outIndices' ! i < int (length outVertices'))
        \<and> distinct outVertices'
        \<and> (\<forall>i<length inVertices. outVertices' ! nat (outIndices' ! i) = inVertices ! i)
        \<and> (\<forall>i<length inVertices.
              outIndices' ! i = outIndices' ! first_index inVertices (inVertices ! i))"
    using res p1 p2 p3 p4 p5 by blast
qed

lemma GenerateIndexedTriangles_indexed_example:
  "0 < length [3, 1, 3, 2, 1, 3 :: nat] \<and> length [3, 1, 3, 2, 1, 3 :: nat] mod 3 = 0
   \<and> card (set [3, 1, 3, 2, 1, 3 :: nat]) \<le> 2 ^ 31
   \<and> GenerateIndexedTriangles 0 [3, 1, 3, 2, 1, 3 :: nat] [] []
       = Inr ([3, 1, 2], [0, 1, 0, 2, 1, 0])"
proof -
  have c: "card (set [3, 1, 3, 2, 1, 3 :: nat]) \<le> 2 ^ 31"
    by (simp add: card_insert_if)
  have l: "length (resize (length [3, 1, 3, 2, 1, 3 :: nat]) (0::int) [])
      = length [3, 1, 3, 2, 1, 3 :: nat]"
    by (simp only: length_resize)
  have rd: "RemoveDuplicates 0 [3, 1, 3, 2, 1, 3 :: nat] []
        (resize (length [3, 1, 3, 2, 1, 3 :: nat]) 0 [])
      = Inr (first_occurrences [3, 1, 3, 2, 1, 3 :: nat],
          map (\<lambda>x. int (first_index (first_occurrences [3, 1, 3, 2, 1, 3 :: nat]) x))
            [3, 1, 3, 2, 1, 3 :: nat])"
    by (rule RemoveDuplicates_bounded [OF l c])
  have fo: "first_occurrences [3, 1, 3, 2, 1, 3 :: nat] = [3, 1, 2]"
    by (simp add: first_occurrences_def)
  have ix: "map (\<lambda>x. int (first_index [3, 1, 2] x)) [3, 1, 3, 2, 1, 3 :: nat]
      = [0, 1, 0, 2, 1, 0]"
    by (simp add: first_index_def)
  have "GenerateIndexedTriangles 0 [3, 1, 3, 2, 1, 3 :: nat] [] []
      = Inr ([3, 1, 2], [0, 1, 0, 2, 1, 0])"
    by (simp only: GenerateIndexedTriangles_def rd fo ix) simp
  then show ?thesis
    using c GenerateIndexedTriangles_indexed [of "[3, 1, 3, 2, 1, 3]" 0 "[]" "[]"]
    by simp
qed


text \<open>
  C9. The claim is the contract of \<open>GenerateIndexedTriangles\<close>, as the comment above the
  function states it: for every non-empty list of vertices whose length is a multiple of
  3, the index list is as long as the input, every index lies in
  \<open>[0, outVertices.size())\<close>, the pool has no repeated vertex and the pool vertex at index
  \<open>outIndices[i]\<close> is the input vertex \<open>i\<close>. The code does not meet it on every such
  input. The list of the \<open>2\<^sup>3\<^sup>1 + 1\<close> distinct vertices \<open>0, 1, \<dots>, 2\<^sup>3\<^sup>1\<close> satisfies the
  precondition (its length is a multiple of 3); there the unchecked
  \<open>static_cast<int32_t>(numOutVertices)\<close> wraps, the first loop writes the index \<open>-2\<^sup>3\<^sup>1\<close>
  for the last vertex, and the packing loop then writes outside the pool.
\<close>

theorem GenerateIndexedTriangles_int32_overflow:
  "GenerateIndexedTriangles (0::nat) [0..<2147483649] [] [] = Inl OutOfRangeWrite
   \<and> snd (snd (fold (RemoveDuplicates_step [0..<2147483649]) [0..<2147483649]
            (0, RBT.empty, resize 2147483649 0 []))) ! 2147483648 = - 2147483648"
proof
  show "GenerateIndexedTriangles (0::nat) [0..<2147483649] [] [] = Inl OutOfRangeWrite"
    by (rule GenerateIndexedTriangles_upt_overflow) simp_all
  show "snd (snd (fold (RemoveDuplicates_step [0..<2147483649]) [0..<2147483649]
            (0, RBT.empty, resize 2147483649 0 []))) ! 2147483648 = - 2147483648"
    by (rule RemoveDuplicates_upt_index) simp
qed

end
